theory Spec2Isabelle
  imports Complex_Main "HOL-Library.Multiset" "HOL-Library.Sublist"
begin

section \<open>Values, errors and frames\<close>

text \<open>
  The cells of a pandas frame, as \<^verbatim>\<open>main.py\<close> meets them: \<^verbatim>\<open>None\<close>, the float
  \<^verbatim>\<open>nan\<close> (what \<^verbatim>\<open>read_csv\<close> puts in an empty field), text, integers, finite floats
  (taken exactly, as rationals), the two infinite floats (\<open>PInf True\<close> is the negative one)
  and, after \<^verbatim>\<open>_parse_array\<close>, lists of text. Text is ASCII: a \<open>char\<close> is a code point
  below 128.
\<close>

datatype pyval =
    PNone
  | PNaN
  | PStr string
  | PInt int
  | PFloat rat
  | PInf bool
  | PList "string list"

datatype py_error =
    ValueError
  | KeyError
  | TypeError
  | AttributeError
  | OverflowError
  | IntCastingNaNError
  | OperationalError
  | OSError

text \<open>
  A row is an ordered mapping from column names to cells; a frame carries its column index
  and its rows (\<^verbatim>\<open>df.columns\<close> exists also when there is no row).
\<close>

type_synonym row = "(string \<times> pyval) list"

record dataframe =
  columns :: "string list"
  rows :: "row list"

section \<open>Text primitives of Python\<close>

text \<open>\<^verbatim>\<open>str.isspace\<close> on ASCII: tab to carriage return, the four separators, the space.\<close>

definition py_isspace :: "char \<Rightarrow> bool" where
  "py_isspace c = ((of_char c :: nat) \<in> {9, 10, 11, 12, 13, 28, 29, 30, 31, 32})"

text \<open>\<^verbatim>\<open>s.strip(chars)\<close>: drops, at both ends, every character that is in the set.\<close>

definition strip_where :: "(char \<Rightarrow> bool) \<Rightarrow> string \<Rightarrow> string" where
  "strip_where P s = rev (dropWhile P (rev (dropWhile P s)))"

definition py_strip :: "string \<Rightarrow> string" where
  "py_strip s = strip_where py_isspace s"

definition strip_chars :: "string \<Rightarrow> string \<Rightarrow> string" where
  "strip_chars cs s = strip_where (\<lambda>c. c \<in> set cs) s"

text \<open>\<^verbatim>\<open>s.replace(c, "")\<close> for a one-character \<^verbatim>\<open>c\<close>.\<close>

definition remove_char :: "char \<Rightarrow> string \<Rightarrow> string" where
  "remove_char c s = filter (\<lambda>x. x \<noteq> c) s"

text \<open>\<^verbatim>\<open>s.split(c)\<close>: the pieces between the separators; always at least one piece.\<close>

fun py_split :: "char \<Rightarrow> string \<Rightarrow> string list" where
  "py_split c [] = [[]]"
| "py_split c (x # xs) =
     (if x = c then [] # py_split c xs
      else (case py_split c xs of
              [] \<Rightarrow> [[x]]
            | p # ps \<Rightarrow> (x # p) # ps))"

section \<open>Null tests\<close>

text \<open>
  \<^verbatim>\<open>pd.isna(v)\<close> in a boolean position. On a scalar it is a boolean. On a list it is an
  array of booleans, whose truth value is that of its only element when it has one (here
  \<open>False\<close>: the elements are text) and a \<^verbatim>\<open>ValueError\<close> ("The truth value of an array
  with more than one element is ambiguous") when it has several. The empty array is
  an error since NumPy 2.2 and \<open>False\<close> with a deprecation warning before; no theorem below
  is about that case.
\<close>

fun isna_truth :: "pyval \<Rightarrow> py_error + bool" where
  "isna_truth PNone = Inr True"
| "isna_truth PNaN = Inr True"
| "isna_truth (PList []) = Inl ValueError"
| "isna_truth (PList [x]) = Inr False"
| "isna_truth (PList (x # y # zs)) = Inl ValueError"
| "isna_truth v = Inr False"

text \<open>\<^verbatim>\<open>pd.isna(value) or value == ''\<close>: the comparison is only reached when the first
  operand is false.\<close>

definition isna_or_empty :: "pyval \<Rightarrow> py_error + bool" where
  "isna_or_empty v =
     (case isna_truth v of
        Inl e \<Rightarrow> Inl e
      | Inr True \<Rightarrow> Inr True
      | Inr False \<Rightarrow> Inr (v = PStr []))"

section \<open>The array parser\<close>

text \<open>
  \<^verbatim>\<open>
  def _parse_array(self, value) -> list:
      if pd.isna(value) or value == '':
          return []
      if isinstance(value, str):
          value = value.strip('[]').replace("'", "").replace('"', '')
          if value:
              return [item.strip() for item in value.split(',') if item.strip()]
      return []
  \<close>
\<close>

definition parse_array :: "pyval \<Rightarrow> py_error + string list" where
  "parse_array v =
     (case isna_or_empty v of
        Inl e \<Rightarrow> Inl e
      | Inr True \<Rightarrow> Inr []
      | Inr False \<Rightarrow>
          (case v of
             PStr s \<Rightarrow>
               (let value = remove_char (CHR 0x22) (remove_char (CHR 0x27) (strip_chars ''[]'' s))
                in if value \<noteq> []
                   then Inr (map py_strip (filter (\<lambda>item. py_strip item \<noteq> []) (py_split CHR '','' value)))
                   else Inr [])
           | _ \<Rightarrow> Inr []))"




section \<open>Deduplication\<close>

text \<open>
  \<^verbatim>\<open>df.duplicated(subset=[k], keep='first')\<close>: the mask that is true at a row whose key
  has been seen at an earlier row. pandas compares keys by value and takes two missing
  keys (\<^verbatim>\<open>nan\<close>) as equal, which is equality of \<open>pyval\<close>. A frame without the column
  raises \<^verbatim>\<open>KeyError\<close>.
\<close>

definition cell :: "string \<Rightarrow> row \<Rightarrow> pyval option" where
  "cell k r = map_of r k"

fun seen_before :: "'a list \<Rightarrow> 'a list \<Rightarrow> bool list" where
  "seen_before seen [] = []"
| "seen_before seen (k # ks) = (k \<in> set seen) # seen_before (k # seen) ks"

definition duplicated :: "string \<Rightarrow> dataframe \<Rightarrow> py_error + bool list" where
  "duplicated k df =
     (if k \<in> set (columns df) then Inr (seen_before [] (map (cell k) (rows df)))
      else Inl KeyError)"

text \<open>\<^verbatim>\<open>df[mask]\<close>: the rows at which the mask is true, in their order, under the same columns.\<close>

fun select_rows :: "bool list \<Rightarrow> 'a list \<Rightarrow> 'a list" where
  "select_rows (b # bs) (r # rs) = (if b then r # select_rows bs rs else select_rows bs rs)"
| "select_rows _ _ = []"

definition boolean_index :: "dataframe \<Rightarrow> bool list \<Rightarrow> dataframe" where
  "boolean_index df msk = df\<lparr>rows := select_rows msk (rows df)\<rparr>"

text \<open>
  \<^verbatim>\<open>
  def clean_data(self, df):
      duplicates_mask = df.duplicated(subset=['ids'], keep='first')
      clean_data = df[~duplicates_mask].copy()
      duplicate_data = df[duplicates_mask].copy()
      return clean_data, duplicate_data
  \<close>
  The copies are new frames; in the model every frame is a value, so a copy is the frame.
\<close>

definition clean_data :: "dataframe \<Rightarrow> py_error + (dataframe \<times> dataframe)" where
  "clean_data df =
     (case duplicated ''ids'' df of
        Inl e \<Rightarrow> Inl e
      | Inr duplicates_mask \<Rightarrow>
          Inr (boolean_index df (map Not duplicates_mask), boolean_index df duplicates_mask))"




section \<open>Library functions taken as parameters\<close>

text \<open>
  A calendar date, and the functions of pandas and Python whose bodies are outside
  \<^verbatim>\<open>main.py\<close> and are not modelled here:
  \<^item> \<open>to_datetime s\<close> is the date of \<^verbatim>\<open>pd.to_datetime(s, dayfirst=True)\<close> when that call and
    the \<^verbatim>\<open>strftime\<close> after it both return, and \<open>None\<close> when either raises (\<^verbatim>\<open>NaT\<close> has
    no \<^verbatim>\<open>strftime\<close>);
  \<^item> \<open>float_repr\<close> and \<open>list_repr\<close> are \<^verbatim>\<open>str\<close> on a finite float and on a list;
  \<^item> \<open>str_to_number s\<close> is the number \<^verbatim>\<open>pd.to_numeric\<close> reads in the text \<open>s\<close>, \<open>None\<close> when
    it reads none;
  \<^item> \<open>int_of_str s\<close> is \<^verbatim>\<open>int(s)\<close>, \<open>None\<close> when it raises.
\<close>

record pydate =
  year :: nat
  month :: nat
  day :: nat

datatype number = NumInt int | NumFloat rat | NumInf bool | NumNaN

record pylib =
  to_datetime :: "string \<Rightarrow> pydate option"
  float_repr :: "rat \<Rightarrow> string"
  list_repr :: "string list \<Rightarrow> string"
  str_to_number :: "string \<Rightarrow> number option"
  int_of_str :: "string \<Rightarrow> int option"

section \<open>Dates: \<^verbatim>\<open>strptime\<close> and \<^verbatim>\<open>strftime\<close>\<close>

definition is_digit :: "char \<Rightarrow> bool" where
  "is_digit c = (48 \<le> (of_char c :: nat) \<and> (of_char c :: nat) \<le> 57)"

definition char_in :: "char \<Rightarrow> char \<Rightarrow> char \<Rightarrow> bool" where
  "char_in lo hi c = ((of_char lo :: nat) \<le> of_char c \<and> (of_char c :: nat) \<le> of_char hi)"

text \<open>The value of a digit; a space counts for nothing (\<^verbatim>\<open>int(' 5')\<close> is 5).\<close>

definition digit_val :: "char \<Rightarrow> nat" where
  "digit_val c = (if is_digit c then of_char c - 48 else 0)"

definition digit_char :: "nat \<Rightarrow> char" where
  "digit_char n = char_of (48 + n)"

text \<open>
  The directives of \<^verbatim>\<open>_strptime\<close> are regular expressions, tried by a backtracking matcher.
  Each is modelled by the list of the ways it can match a prefix of the text, in the
  order of its alternatives, with the number read and the text that remains:
  \<^verbatim>\<open>
  'd': r"(?P<d>3[0-1]|[1-2]\d|0[1-9]|[1-9]| [1-9])"
  'm': r"(?P<m>1[0-2]|0[1-9]|[1-9])"
  'Y': r"(?P<Y>\d\d\d\d)"
  \<close>
\<close>

definition two_chars :: "(char \<Rightarrow> bool) \<Rightarrow> (char \<Rightarrow> bool) \<Rightarrow> string \<Rightarrow> (nat \<times> string) list" where
  "two_chars P Q s =
     (case s of
        a # b # r \<Rightarrow> if P a \<and> Q b then [(10 * digit_val a + digit_val b, r)] else []
      | _ \<Rightarrow> [])"

definition one_char :: "(char \<Rightarrow> bool) \<Rightarrow> string \<Rightarrow> (nat \<times> string) list" where
  "one_char P s = (case s of a # r \<Rightarrow> if P a then [(digit_val a, r)] else [] | _ \<Rightarrow> [])"

definition re_d :: "string \<Rightarrow> (nat \<times> string) list" where
  "re_d s =
     two_chars (\<lambda>c. c = CHR ''3'') (char_in CHR ''0'' CHR ''1'') s @
     two_chars (char_in CHR ''1'' CHR ''2'') is_digit s @
     two_chars (\<lambda>c. c = CHR ''0'') (char_in CHR ''1'' CHR ''9'') s @
     one_char (char_in CHR ''1'' CHR ''9'') s @
     two_chars (\<lambda>c. c = CHR '' '') (char_in CHR ''1'' CHR ''9'') s"

definition re_m :: "string \<Rightarrow> (nat \<times> string) list" where
  "re_m s =
     two_chars (\<lambda>c. c = CHR ''1'') (char_in CHR ''0'' CHR ''2'') s @
     two_chars (\<lambda>c. c = CHR ''0'') (char_in CHR ''1'' CHR ''9'') s @
     one_char (char_in CHR ''1'' CHR ''9'') s"

definition re_Y :: "string \<Rightarrow> (nat \<times> string) list" where
  "re_Y s =
     (case s of
        a # b # c # d # r \<Rightarrow>
          if is_digit a \<and> is_digit b \<and> is_digit c \<and> is_digit d
          then [(1000 * digit_val a + 100 * digit_val b + 10 * digit_val c + digit_val d, r)]
          else []
      | _ \<Rightarrow> [])"

datatype directive = Dir_d | Dir_m | Dir_Y | Lit char

text \<open>
  All the matches of a format against a prefix of the text, in the order in which the
  backtracking matcher finds them, with the fields read (year, month, day) and the rest.
\<close>

fun re_match :: "directive list \<Rightarrow> string \<Rightarrow> nat \<times> nat \<times> nat \<Rightarrow> ((nat \<times> nat \<times> nat) \<times> string) list" where
  "re_match [] s f = [(f, s)]"
| "re_match (Lit c # ds) s f =
     (case s of x # xs \<Rightarrow> if x = c then re_match ds xs f else [] | [] \<Rightarrow> [])"
| "re_match (Dir_d # ds) s (y, m, d) = concat (map (\<lambda>(v, r). re_match ds r (y, m, v)) (re_d s))"
| "re_match (Dir_m # ds) s (y, m, d) = concat (map (\<lambda>(v, r). re_match ds r (y, v, d)) (re_m s))"
| "re_match (Dir_Y # ds) s (y, m, d) = concat (map (\<lambda>(v, r). re_match ds r (v, m, d)) (re_Y s))"

definition is_leap :: "nat \<Rightarrow> bool" where
  "is_leap y = (if y mod 100 = 0 then y mod 400 = 0 else y mod 4 = 0)"

definition days_in_month :: "nat \<Rightarrow> nat \<Rightarrow> nat" where
  "days_in_month y m =
     (if m = 2 then (if is_leap y then 29 else 28)
      else if m = 4 \<or> m = 6 \<or> m = 9 \<or> m = 11 then 30 else 31)"

text \<open>The dates \<^verbatim>\<open>datetime\<close> accepts: years 1 to 9999, a day that the month has.\<close>

definition valid_date :: "nat \<Rightarrow> nat \<Rightarrow> nat \<Rightarrow> bool" where
  "valid_date y m d = (1 \<le> y \<and> y \<le> 9999 \<and> 1 \<le> m \<and> m \<le> 12 \<and> 1 \<le> d \<and> d \<le> days_in_month y m)"

text \<open>
  \<^verbatim>\<open>datetime.strptime(date_str, fmt)\<close>: the first match of the format is taken;
  \<^verbatim>\<open>ValueError\<close> (here \<open>None\<close>) when there is none, when text remains after it
  ("unconverted data remains": the matcher does not look for another match), and when
  the fields are not a date.
\<close>

definition strptime :: "string \<Rightarrow> directive list \<Rightarrow> pydate option" where
  "strptime date_str fmt =
     (case re_match fmt date_str (1900, 1, 1) of
        [] \<Rightarrow> None
      | ((y, m, d), rest) # _ \<Rightarrow>
          if rest \<noteq> [] then None
          else if valid_date y m d then Some \<lparr>year = y, month = m, day = d\<rparr>
          else None)"

definition pad2 :: "nat \<Rightarrow> string" where
  "pad2 n = [digit_char (n div 10 mod 10), digit_char (n mod 10)]"

definition pad4 :: "nat \<Rightarrow> string" where
  "pad4 n = [digit_char (n div 1000 mod 10), digit_char (n div 100 mod 10),
             digit_char (n div 10 mod 10), digit_char (n mod 10)]"

text \<open>
  \<^verbatim>\<open>strftime('%Y-%m-%d')\<close>, with the year on four digits as the documentation of
  \<^verbatim>\<open>datetime\<close> shows it (the C library of some platforms does not pad a year below 1000).
\<close>

definition strftime :: "pydate \<Rightarrow> string" where
  "strftime dt = pad4 (year dt) @ ''-'' @ pad2 (month dt) @ ''-'' @ pad2 (day dt)"

definition date_formats :: "directive list list" where
  "date_formats =
     [[Dir_d, Lit CHR ''/'', Dir_m, Lit CHR ''/'', Dir_Y],
      [Dir_m, Lit CHR ''/'', Dir_d, Lit CHR ''/'', Dir_Y],
      [Dir_Y, Lit CHR ''-'', Dir_m, Lit CHR ''-'', Dir_d],
      [Dir_d, Lit CHR ''-'', Dir_m, Lit CHR ''-'', Dir_Y],
      [Dir_Y, Lit CHR ''/'', Dir_m, Lit CHR ''/'', Dir_d],
      [Dir_d, Lit CHR ''.'', Dir_m, Lit CHR ''.'', Dir_Y],
      [Dir_Y, Dir_m, Dir_d]]"

text \<open>The loop over the formats: the first format that parses gives the result.\<close>

fun try_formats :: "directive list list \<Rightarrow> string \<Rightarrow> string option" where
  "try_formats [] date_str = None"
| "try_formats (fmt # fmts) date_str =
     (case strptime date_str fmt of
        Some parsed_date \<Rightarrow> Some (strftime parsed_date)
      | None \<Rightarrow> try_formats fmts date_str)"

section \<open>\<^verbatim>\<open>str\<close> of a cell\<close>

function show_nat :: "nat \<Rightarrow> string" where
  "show_nat n = (if n < 10 then [digit_char n] else show_nat (n div 10) @ [digit_char (n mod 10)])"
  by pat_completeness auto
termination
  by (relation "measure id") auto

definition show_int :: "int \<Rightarrow> string" where
  "show_int i = (if i < 0 then CHR ''-'' # show_nat (nat (- i)) else show_nat (nat i))"

definition py_str :: "pylib \<Rightarrow> pyval \<Rightarrow> string" where
  "py_str L v =
     (case v of
        PNone \<Rightarrow> ''None''
      | PNaN \<Rightarrow> ''nan''
      | PStr s \<Rightarrow> s
      | PInt i \<Rightarrow> show_int i
      | PFloat q \<Rightarrow> float_repr L q
      | PInf neg \<Rightarrow> (if neg then ''-inf'' else ''inf'')
      | PList xs \<Rightarrow> list_repr L xs)"

section \<open>The date parser\<close>

text \<open>
  \<^verbatim>\<open>
  def _parse_date(self, date_str):
      if pd.isna(date_str) or date_str == '':
          return None
      date_str = str(date_str).strip()
      date_formats = [...]
      for fmt in date_formats:
          try:
              parsed_date = datetime.strptime(date_str, fmt)
              return parsed_date.strftime('%Y-%m-%d')
          except:
              continue
      try:
          parsed_date = pd.to_datetime(date_str, dayfirst=True)
          return parsed_date.strftime('%Y-%m-%d')
      except:
          logger.warning(f"Could not parse date: {date_str}, returning as-is")
          return date_str
  \<close>
\<close>

definition parse_date :: "pylib \<Rightarrow> pyval \<Rightarrow> py_error + pyval" where
  "parse_date L v =
     (case isna_or_empty v of
        Inl e \<Rightarrow> Inl e
      | Inr True \<Rightarrow> Inr PNone
      | Inr False \<Rightarrow>
          (let date_str = py_strip (py_str L v)
           in case try_formats date_formats date_str of
                Some r \<Rightarrow> Inr (PStr r)
              | None \<Rightarrow>
                  (case to_datetime L date_str of
                     Some parsed_date \<Rightarrow> Inr (PStr (strftime parsed_date))
                   | None \<Rightarrow> Inr (PStr date_str))))"

text \<open>
  A library under which the permissive parser recognises no text and no text is a number;
  it stands for the real one wherever the real one gives the same answers.
\<close>

definition lib_none :: pylib where
  "lib_none = \<lparr>to_datetime = (\<lambda>s. None), float_repr = (\<lambda>q. ''0.0''), list_repr = (\<lambda>xs. ''[]''),
               str_to_number = (\<lambda>s. None), int_of_str = (\<lambda>s. None)\<rparr>"

section \<open>Errors in sequence\<close>

text \<open>A call that raises ends the computation; otherwise the next step takes its value.\<close>

definition and_then :: "'e + 'a \<Rightarrow> ('a \<Rightarrow> 'e + 'b) \<Rightarrow> 'e + 'b" where
  "and_then m f = (case m of Inl e \<Rightarrow> Inl e | Inr x \<Rightarrow> f x)"

text \<open>\<^verbatim>\<open>Series.apply(func)\<close> and the \<^verbatim>\<open>for\<close> loops that build a list: element by element,
  stopping at the first call that raises.\<close>

fun map_err :: "('a \<Rightarrow> 'e + 'b) \<Rightarrow> 'a list \<Rightarrow> 'e + 'b list" where
  "map_err f [] = Inr []"
| "map_err f (x # xs) =
     (case f x of
        Inl e \<Rightarrow> Inl e
      | Inr y \<Rightarrow> (case map_err f xs of Inl e \<Rightarrow> Inl e | Inr ys \<Rightarrow> Inr (y # ys)))"

text \<open>A \<^verbatim>\<open>for\<close> loop that updates the frame for each column name of a list.\<close>

fun fold_err :: "('a \<Rightarrow> 's \<Rightarrow> 'e + 's) \<Rightarrow> 'a list \<Rightarrow> 's \<Rightarrow> 'e + 's" where
  "fold_err f [] s = Inr s"
| "fold_err f (x # xs) s = (case f x s of Inl e \<Rightarrow> Inl e | Inr s' \<Rightarrow> fold_err f xs s')"

section \<open>Numeric coercion\<close>

text \<open>
  \<^verbatim>\<open>pd.to_numeric(col, errors='coerce').fillna(0).astype(int)\<close>, element by element.
  \<^verbatim>\<open>to_numeric\<close> keeps a number, reads a text with the library's reader and turns what is
  not a number into \<^verbatim>\<open>nan\<close>; \<^verbatim>\<open>fillna(0)\<close> replaces \<^verbatim>\<open>nan\<close> by zero; \<^verbatim>\<open>astype(int)\<close> keeps
  an integer, cuts the fraction of a finite float (towards zero) and raises on an infinite
  one ("Cannot convert non-finite values (NA or inf) to integer").
\<close>

definition to_numeric :: "pylib \<Rightarrow> pyval \<Rightarrow> number" where
  "to_numeric L v =
     (case v of
        PNone \<Rightarrow> NumNaN
      | PNaN \<Rightarrow> NumNaN
      | PStr s \<Rightarrow> (case str_to_number L s of Some n \<Rightarrow> n | None \<Rightarrow> NumNaN)
      | PInt i \<Rightarrow> NumInt i
      | PFloat q \<Rightarrow> NumFloat q
      | PInf neg \<Rightarrow> NumInf neg
      | PList xs \<Rightarrow> NumNaN)"

definition fillna0 :: "number \<Rightarrow> number" where
  "fillna0 n = (case n of NumNaN \<Rightarrow> NumInt 0 | _ \<Rightarrow> n)"

definition trunc :: "rat \<Rightarrow> int" where
  "trunc q = (if 0 \<le> q then \<lfloor>q\<rfloor> else \<lceil>q\<rceil>)"

definition astype_int :: "number \<Rightarrow> py_error + int" where
  "astype_int n =
     (case n of
        NumInt i \<Rightarrow> Inr i
      | NumFloat q \<Rightarrow> Inr (trunc q)
      | NumInf neg \<Rightarrow> Inl IntCastingNaNError
      | NumNaN \<Rightarrow> Inl IntCastingNaNError)"

definition coerce_integer :: "pylib \<Rightarrow> pyval \<Rightarrow> py_error + int" where
  "coerce_integer L v = astype_int (fillna0 (to_numeric L v))"

definition numeric_series :: "pylib \<Rightarrow> pyval list \<Rightarrow> py_error + pyval list" where
  "numeric_series L vs = map_err (\<lambda>v. and_then (coerce_integer L v) (\<lambda>i. Inr (PInt i))) vs"

section \<open>Upper case and the \<^verbatim>\<open>.str\<close> accessor\<close>

definition py_upper_char :: "char \<Rightarrow> char" where
  "py_upper_char c = (if char_in CHR ''a'' CHR ''z'' c then char_of ((of_char c :: nat) - 32) else c)"

definition py_upper :: "string \<Rightarrow> string" where
  "py_upper s = map py_upper_char s"

definition is_null :: "pyval \<Rightarrow> bool" where
  "is_null v = (v = PNone \<or> v = PNaN)"

definition is_number :: "pyval \<Rightarrow> bool" where
  "is_number v = (case v of PInt i \<Rightarrow> True | PFloat q \<Rightarrow> True | PInf neg \<Rightarrow> True | _ \<Rightarrow> False)"

text \<open>
  \<^verbatim>\<open>col.str\<close> raises \<^verbatim>\<open>AttributeError\<close> ("Can only use .str accessor with string values")
  when the values that are not null are all numbers; a column of nulls only is taken as a
  column of objects, which the accessor accepts. \<^verbatim>\<open>.str.upper()\<close> gives the upper case of
  a text and \<^verbatim>\<open>nan\<close> for anything else.
\<close>

definition str_accessor_ok :: "pyval list \<Rightarrow> bool" where
  "str_accessor_ok vs =
     (let present = filter (\<lambda>v. \<not> is_null v) vs
      in present = [] \<or> list_ex (\<lambda>v. \<not> is_number v) present)"

definition upper_cell :: "pyval \<Rightarrow> pyval" where
  "upper_cell v = (case v of PStr s \<Rightarrow> PStr (py_upper s) | _ \<Rightarrow> PNaN)"

definition str_upper :: "pyval list \<Rightarrow> py_error + pyval list" where
  "str_upper vs = (if str_accessor_ok vs then Inr (map upper_cell vs) else Inl AttributeError)"

section \<open>The transformation of a frame\<close>

text \<open>\<^verbatim>\<open>df[c]\<close> read as a column, and \<^verbatim>\<open>df[c] = values\<close>.\<close>

definition get_column :: "string \<Rightarrow> dataframe \<Rightarrow> pyval list" where
  "get_column c df = map (\<lambda>r. case cell c r of Some v \<Rightarrow> v | None \<Rightarrow> PNaN) (rows df)"

definition set_cell :: "string \<Rightarrow> pyval \<Rightarrow> row \<Rightarrow> row" where
  "set_cell c v r = map (\<lambda>(k, x). if k = c then (k, v) else (k, x)) r"

definition set_column :: "string \<Rightarrow> pyval list \<Rightarrow> dataframe \<Rightarrow> dataframe" where
  "set_column c vs df = df\<lparr>rows := map (\<lambda>(r, v). set_cell c v r) (zip (rows df) vs)\<rparr>"

text \<open>\<^verbatim>\<open>if c in df.columns: df[c] = f(df[c])\<close>.\<close>

definition apply_series :: "string \<Rightarrow> (pyval list \<Rightarrow> py_error + pyval list) \<Rightarrow> dataframe \<Rightarrow> py_error + dataframe" where
  "apply_series c f df =
     (if c \<in> set (columns df)
      then and_then (f (get_column c df)) (\<lambda>vs. Inr (set_column c vs df))
      else Inr df)"

definition numeric_columns :: "string list" where
  "numeric_columns = [''monthly_listeners'', ''popularity'', ''followers'', ''num_releases'', ''num_tracks'']"

text \<open>\<^verbatim>\<open>col.astype(str).replace('nan', '').replace('None', '')\<close>, element by element.\<close>

definition release_cell :: "pylib \<Rightarrow> pyval \<Rightarrow> pyval" where
  "release_cell L v =
     (let s = py_str L v;
          s1 = (if s = ''nan'' then '''' else s);
          s2 = (if s1 = ''None'' then '''' else s1)
      in PStr s2)"

text \<open>
  \<^verbatim>\<open>
  def transform_data(self, df):
      df_transformed = df.copy()
      if 'dates' in df_transformed.columns:
          df_transformed['dates'] = df_transformed['dates'].apply(self._parse_date)
      if 'names' in df_transformed.columns:
          df_transformed['names'] = df_transformed['names'].str.upper()
      numeric_columns = ['monthly_listeners', 'popularity', 'followers', 'num_releases', 'num_tracks']
      for col in numeric_columns:
          if col in df_transformed.columns:
              df_transformed[col] = pd.to_numeric(df_transformed[col], errors='coerce').fillna(0).astype(int)
      for col in ['genres', 'feat_track_ids']:
          if col in df_transformed.columns:
              df_transformed[col] = df_transformed[col].apply(self._parse_array)
      for col in ['first_release', 'last_release']:
          if col in df_transformed.columns:
              df_transformed[col] = df_transformed[col].astype(str).replace('nan', '').replace('None', '')
      return df_transformed
  \<close>
  An exception of a step is logged and raised again; the argument \<^verbatim>\<open>df\<close> is not changed.
\<close>

definition transform_data :: "pylib \<Rightarrow> dataframe \<Rightarrow> py_error + dataframe" where
  "transform_data L df =
     and_then (apply_series ''dates'' (map_err (parse_date L)) df) (\<lambda>df1.
     and_then (apply_series ''names'' str_upper df1) (\<lambda>df2.
     and_then (fold_err (\<lambda>col. apply_series col (numeric_series L)) numeric_columns df2) (\<lambda>df3.
     and_then (fold_err (\<lambda>col. apply_series col
                  (map_err (\<lambda>v. and_then (parse_array v) (\<lambda>xs. Inr (PList xs)))))
                 [''genres'', ''feat_track_ids''] df3) (\<lambda>df4.
     fold_err (\<lambda>col. apply_series col (\<lambda>vs. Inr (map (release_cell L) vs)))
       [''first_release'', ''last_release''] df4))))"

section \<open>The sinks\<close>

text \<open>
  What is outside the program: whether \<^verbatim>\<open>get_db_connection\<close> obtains a connection within its
  five attempts, and whether the target directory can be written.
\<close>

record env =
  db_connects :: bool
  fs_writable :: bool

text \<open>
  \<^verbatim>\<open>insert_to_database\<close> hands one \<^verbatim>\<open>INSERT\<close> per row to the cursor: the table, the column
  names and the values. A row that the database refuses is logged and skipped, so the
  statements handed over do not depend on the database. With \<^verbatim>\<open>is_reject\<close> the column
  \<open>reject_reason\<close> and the value \<open>Duplicate ID\<close> are appended to the lists built for the
  statement, not to the frame.
  \<^verbatim>\<open>
  for idx, row in df.iterrows():
      columns = list(row.index)
      values = []
      for col in columns:
          val = row[col]
          if col in ['genres', 'feat_track_ids']:
              if isinstance(val, list): values.append(val)
              else: values.append([])
          else:
              values.append(val)
      if is_reject:
          columns.append('reject_reason')
          values.append('Duplicate ID')
  \<close>
\<close>

record statement =
  table_name :: string
  stmt_columns :: "string list"
  stmt_values :: "pyval list"

definition insert_value :: "string \<times> pyval \<Rightarrow> pyval" where
  "insert_value cv =
     (case cv of (col, val) \<Rightarrow>
        if col \<in> set [''genres'', ''feat_track_ids'']
        then (case val of PList xs \<Rightarrow> val | _ \<Rightarrow> PList [])
        else val)"

definition insert_statement :: "string \<Rightarrow> bool \<Rightarrow> row \<Rightarrow> statement" where
  "insert_statement table is_reject r =
     \<lparr>table_name = table,
      stmt_columns = map fst r @ (if is_reject then [''reject_reason''] else []),
      stmt_values = map insert_value r @ (if is_reject then [PStr ''Duplicate ID''] else [])\<rparr>"

definition insert_to_database :: "env \<Rightarrow> dataframe \<Rightarrow> string \<Rightarrow> bool \<Rightarrow> py_error + statement list" where
  "insert_to_database E df table is_reject =
     (if db_connects E then Inr (map (insert_statement table is_reject) (rows df))
      else Inl OperationalError)"

text \<open>\<^verbatim>\<open>save_to_csv\<close> writes the frame it is given, header and rows.\<close>

definition save_to_csv :: "env \<Rightarrow> dataframe \<Rightarrow> py_error + dataframe" where
  "save_to_csv E df = (if fs_writable E then Inr df else Inl OSError)"

section \<open>The JSON export\<close>

datatype json_value = JString string | JInt int | JArray "string list"

text \<open>\<^verbatim>\<open>pd.notna(v)\<close> in a boolean position; on a list it is an array, as for \<^verbatim>\<open>pd.isna\<close>.\<close>

fun notna_truth :: "pyval \<Rightarrow> py_error + bool" where
  "notna_truth PNone = Inr False"
| "notna_truth PNaN = Inr False"
| "notna_truth (PList []) = Inl ValueError"
| "notna_truth (PList [x]) = Inr True"
| "notna_truth (PList (x # y # zs)) = Inl ValueError"
| "notna_truth v = Inr True"

text \<open>\<^verbatim>\<open>int(v)\<close>.\<close>

definition py_int :: "pylib \<Rightarrow> pyval \<Rightarrow> py_error + int" where
  "py_int L v =
     (case v of
        PNone \<Rightarrow> Inl TypeError
      | PNaN \<Rightarrow> Inl ValueError
      | PStr s \<Rightarrow> (case int_of_str L s of Some i \<Rightarrow> Inr i | None \<Rightarrow> Inl ValueError)
      | PInt i \<Rightarrow> Inr i
      | PFloat q \<Rightarrow> Inr (trunc q)
      | PInf neg \<Rightarrow> Inl OverflowError
      | PList xs \<Rightarrow> Inl TypeError)"

text \<open>
  The thirteen entries of the record that \<^verbatim>\<open>save_to_json\<close> builds for a row, in the order
  of the dictionary, each with the shape of its expression:
  \<^verbatim>\<open>
  "dates": str(row['dates']) if pd.notna(row['dates']) else "",
  "ids": str(row['ids']),
  "names": str(row['names']),
  "monthly_listeners": int(row['monthly_listeners']) if pd.notna(row['monthly_listeners']) else 0,
  "popularity": ..., "followers": ...,                               (as monthly_listeners)
  "genres": row['genres'] if isinstance(row['genres'], list) else [],
  "first_release": str(row['first_release']) if pd.notna(row['first_release'])
                   and str(row['first_release']) not in ['nan', 'None', ''] else "",
  "last_release": ...,                                               (as first_release)
  "num_releases": ..., "num_tracks": ...,                            (as monthly_listeners)
  "playlists_found": str(row['playlists_found']) if pd.notna(row['playlists_found']) else "",
  "feat_track_ids": ...                                              (as genres)
  \<close>
\<close>

datatype field_kind = StrOrEmpty | StrPlain | IntOrZero | ListOrEmpty | ReleaseOrEmpty

definition json_fields :: "(string \<times> field_kind) list" where
  "json_fields =
     [(''dates'', StrOrEmpty), (''ids'', StrPlain), (''names'', StrPlain),
      (''monthly_listeners'', IntOrZero), (''popularity'', IntOrZero), (''followers'', IntOrZero),
      (''genres'', ListOrEmpty), (''first_release'', ReleaseOrEmpty),
      (''last_release'', ReleaseOrEmpty), (''num_releases'', IntOrZero),
      (''num_tracks'', IntOrZero), (''playlists_found'', StrOrEmpty),
      (''feat_track_ids'', ListOrEmpty)]"

text \<open>\<^verbatim>\<open>row[k]\<close> raises \<^verbatim>\<open>KeyError\<close> when the row has no such column.\<close>

definition row_get :: "row \<Rightarrow> string \<Rightarrow> py_error + pyval" where
  "row_get r k = (case cell k r of None \<Rightarrow> Inl KeyError | Some v \<Rightarrow> Inr v)"

definition json_field :: "pylib \<Rightarrow> row \<Rightarrow> string \<Rightarrow> field_kind \<Rightarrow> py_error + json_value" where
  "json_field L r k kind =
     and_then (row_get r k) (\<lambda>v.
       case kind of
         StrOrEmpty \<Rightarrow>
           and_then (notna_truth v) (\<lambda>present. Inr (JString (if present then py_str L v else '''')))
       | StrPlain \<Rightarrow> Inr (JString (py_str L v))
       | IntOrZero \<Rightarrow>
           and_then (notna_truth v) (\<lambda>present.
             if present then and_then (py_int L v) (\<lambda>i. Inr (JInt i)) else Inr (JInt 0))
       | ListOrEmpty \<Rightarrow> Inr (JArray (case v of PList xs \<Rightarrow> xs | _ \<Rightarrow> []))
       | ReleaseOrEmpty \<Rightarrow>
           and_then (notna_truth v) (\<lambda>present.
             Inr (JString (if present \<and> py_str L v \<notin> set [''nan'', ''None'', '''']
                           then py_str L v else ''''))))"

definition json_record :: "pylib \<Rightarrow> row \<Rightarrow> py_error + (string \<times> json_value) list" where
  "json_record L r =
     map_err (\<lambda>(k, kind). and_then (json_field L r k kind) (\<lambda>j. Inr (k, j))) json_fields"

record json_output =
  row_count :: nat
  data :: "(string \<times> json_value) list list"

definition save_to_json :: "env \<Rightarrow> pylib \<Rightarrow> dataframe \<Rightarrow> py_error + json_output" where
  "save_to_json E L df =
     (if fs_writable E
      then and_then (map_err (json_record L) (rows df)) (\<lambda>data_list.
             Inr \<lparr>row_count = length (rows df), data = data_list\<rparr>)
      else Inl OSError)"

section \<open>The run\<close>

text \<open>\<^verbatim>\<open>df.empty\<close>: no column or no row.\<close>

definition df_empty :: "dataframe \<Rightarrow> bool" where
  "df_empty df = (columns df = [] \<or> rows df = [])"

text \<open>
  What a run hands to the outside: the statements for the two tables, the frame written
  as the reject CSV file (none when there is no duplicate) and the JSON document.
  \<^verbatim>\<open>
  df = self.read_csv('scrap.csv')
  clean_data, duplicate_data = self.clean_data(df)
  clean_data_transformed = self.transform_data(clean_data)
  duplicate_data_transformed = self.transform_data(duplicate_data)
  if not clean_data_transformed.empty:
      self.insert_to_database(clean_data_transformed, 'data', is_reject=False)
  if not duplicate_data_transformed.empty:
      self.insert_to_database(duplicate_data_transformed, 'data_reject', is_reject=True)
  if not duplicate_data.empty:
      self.save_to_csv(duplicate_data, csv_filename)
  self.save_to_json(clean_data_transformed, json_filename)
  \<close>
  The frame read from the source file is the argument; the two counts read back at the
  end are logged only.
\<close>

record outputs =
  data_sink :: "statement list"
  data_reject_sink :: "statement list"
  csv_export :: "dataframe option"
  json_export :: json_output

definition run :: "env \<Rightarrow> pylib \<Rightarrow> dataframe \<Rightarrow> py_error + outputs" where
  "run E L df =
     and_then (clean_data df) (\<lambda>(clean, duplicate).
     and_then (transform_data L clean) (\<lambda>clean_transformed.
     and_then (transform_data L duplicate) (\<lambda>duplicate_transformed.
     and_then (if \<not> df_empty clean_transformed
               then insert_to_database E clean_transformed ''data'' False else Inr []) (\<lambda>s1.
     and_then (if \<not> df_empty duplicate_transformed
               then insert_to_database E duplicate_transformed ''data_reject'' True else Inr []) (\<lambda>s2.
     and_then (if \<not> df_empty duplicate
               then and_then (save_to_csv E duplicate) (\<lambda>f. Inr (Some f)) else Inr None) (\<lambda>csv.
     and_then (save_to_json E L clean_transformed) (\<lambda>js.
     Inr \<lparr>data_sink = s1, data_reject_sink = s2, csv_export = csv, json_export = js\<rparr>)))))))"

text \<open>A library that reads plain decimal integers and nothing else, and the raw frame of
  four rows with the keys 1, 2, 1, 3.\<close>

definition digits_value :: "string \<Rightarrow> int option" where
  "digits_value s =
     (if s \<noteq> [] \<and> list_all is_digit s
      then Some (int (foldl (\<lambda>n c. 10 * n + digit_val c) 0 s)) else None)"

definition lib_digits :: pylib where
  "lib_digits = \<lparr>to_datetime = (\<lambda>s. None), float_repr = (\<lambda>q. ''0.0''), list_repr = (\<lambda>xs. ''[]''),
                 str_to_number = (\<lambda>s. map_option NumInt (digits_value s)),
                 int_of_str = digits_value\<rparr>"

definition raw_row :: "string \<Rightarrow> string \<Rightarrow> string \<Rightarrow> string \<Rightarrow> string \<Rightarrow> row" where
  "raw_row i d n f g =
     [(''dates'', PStr d), (''ids'', PStr i), (''names'', PStr n), (''monthly_listeners'', PInt 10),
      (''popularity'', PInt 5), (''followers'', PStr f), (''genres'', PStr g),
      (''first_release'', PNaN), (''last_release'', PStr ''2020''), (''num_releases'', PInt 2),
      (''num_tracks'', PInt 20), (''playlists_found'', PNaN), (''feat_track_ids'', PNaN)]"

definition raw4 :: dataframe where
  "raw4 = \<lparr>columns = map fst json_fields,
           rows = [raw_row ''a1'' ''13/04/2024'' ''abba'' ''42'' ''[pop]'',
                   raw_row ''a2'' ''2024-04-13'' ''blur'' ''abc'' ''[rock, 'indie']'',
                   raw_row ''a1'' '' not-a-date '' ''cher'' ''7'' '''',
                   raw_row ''a3'' ''20240413'' ''devo'' ''0'' ''pop'']\<rparr>"

definition env_ok :: env where
  "env_ok = \<lparr>db_connects = True, fs_writable = True\<rparr>"

section \<open>Well-formed frames and rows ready for export\<close>

text \<open>A frame as \<^verbatim>\<open>read_csv\<close> builds it: the column names differ and every row has exactly
  the columns of the frame, in their order.\<close>

definition wf_frame :: "dataframe \<Rightarrow> bool" where
  "wf_frame df = (distinct (columns df) \<and> list_all (\<lambda>r. map fst r = columns df) (rows df))"

text \<open>The assignments of \<^verbatim>\<open>transform_data\<close> in their order: the column and the function
  applied to it.\<close>

definition transform_steps :: "pylib \<Rightarrow> (string \<times> (pyval list \<Rightarrow> py_error + pyval list)) list" where
  "transform_steps L =
     [(''dates'', map_err (parse_date L)), (''names'', str_upper)] @
     map (\<lambda>col. (col, numeric_series L)) numeric_columns @
     map (\<lambda>col. (col, map_err (\<lambda>v. and_then (parse_array v) (\<lambda>xs. Inr (PList xs)))))
       [''genres'', ''feat_track_ids''] @
     map (\<lambda>col. (col, \<lambda>vs. Inr (map (release_cell L) vs))) [''first_release'', ''last_release'']"

definition is_list :: "pyval \<Rightarrow> bool" where
  "is_list v = (case v of PList xs \<Rightarrow> True | _ \<Rightarrow> False)"

definition null_or_finite :: "pyval \<Rightarrow> bool" where
  "null_or_finite v =
     (case v of PNone \<Rightarrow> True | PNaN \<Rightarrow> True | PInt i \<Rightarrow> True | PFloat q \<Rightarrow> True | _ \<Rightarrow> False)"

text \<open>
  A row on which the record of \<^verbatim>\<open>save_to_json\<close> can be built: the thirteen columns are
  there, the numeric ones hold a null or a finite number, and the text ones hold no list.
\<close>

definition exportable :: "row \<Rightarrow> bool" where
  "exportable r =
     list_all (\<lambda>(k, kind).
        case cell k r of
          None \<Rightarrow> False
        | Some v \<Rightarrow>
            (case kind of
               IntOrZero \<Rightarrow> null_or_finite v
             | StrOrEmpty \<Rightarrow> \<not> is_list v
             | ReleaseOrEmpty \<Rightarrow> \<not> is_list v
             | _ \<Rightarrow> True)) json_fields"

text \<open>A transformed row whose name is missing.\<close>

definition nameless_row :: row where
  "nameless_row =
     [(''dates'', PNone), (''ids'', PStr ''a9''), (''names'', PNaN), (''monthly_listeners'', PInt 0),
      (''popularity'', PInt 5), (''followers'', PInt 42), (''genres'', PList [''pop'']),
      (''first_release'', PStr ''''), (''last_release'', PStr ''2020''), (''num_releases'', PInt 2),
      (''num_tracks'', PInt 20), (''playlists_found'', PNaN), (''feat_track_ids'', PList [])]"




section \<open>Properties of the deduplication\<close>





lemma subseq_select_rows: "subseq (select_rows m xs) xs"
  by (induction m xs rule: select_rows.induct) auto

lemma clean_data_frames:
  assumes "clean_data df = Inr (clean, dup)"
  shows "columns clean = columns df \<and> columns dup = columns df \<and>
         subseq (rows clean) (rows df) \<and> subseq (rows dup) (rows df)"
proof -
  from assms obtain m where "clean = boolean_index df (map Not m)" "dup = boolean_index df m"
    by (auto simp: clean_data_def duplicated_def split: if_splits)
  then show ?thesis by (simp add: boolean_index_def subseq_select_rows)
qed



section \<open>Properties of the array parser\<close>








section \<open>Properties of the date parser\<close>








text \<open>
  C3, as the code has it. On \<^verbatim>\<open>None\<close>, on a missing value and on the empty text
  \<^verbatim>\<open>_parse_date\<close> returns \<^verbatim>\<open>None\<close>, not the empty text, and raises no error.
\<close>

theorem parse_date_null:
  "parse_date L PNone = Inr PNone \<and> parse_date L PNaN = Inr PNone \<and>
   parse_date L (PStr '''') = Inr PNone"
  by (simp add: parse_date_def isna_or_empty_def)

text \<open>The claim C3 as stated fails on the empty text and on \<^verbatim>\<open>None\<close>: the result is
  \<^verbatim>\<open>None\<close>, which is not the empty text.\<close>

theorem parse_date_null_counterexample:
  "parse_date lib_none (PStr '''') \<noteq> Inr (PStr '''') \<and> parse_date lib_none PNone \<noteq> Inr (PStr '''')"
  by (simp add: parse_date_def isna_or_empty_def)




section \<open>Properties of the numeric coercion\<close>


lemma map_err_length: "map_err f xs = Inr ys \<Longrightarrow> length ys = length xs"
  by (induction xs arbitrary: ys) (auto split: sum.splits)

lemma map_err_Inr_iff:
  "map_err f xs = Inr ys \<longleftrightarrow> list_all2 (\<lambda>x y. f x = Inr y) xs ys"
proof (induction xs arbitrary: ys)
  case Nil
  then show ?case by auto
next
  case (Cons x xs)
  show ?case by (cases ys) (auto simp: Cons.IH[symmetric] split: sum.splits)
qed






section \<open>Properties of the JSON export\<close>

lemma map_err_all2:
  "(\<And>x. x \<in> set xs \<Longrightarrow> \<exists>y. f x = Inr y \<and> P x y) \<Longrightarrow>
   \<exists>ys. map_err f xs = Inr ys \<and> list_all2 P xs ys"
proof (induction xs)
  case Nil
  then show ?case by simp
next
  case (Cons x xs)
  then obtain ys where ys: "map_err f xs = Inr ys" "list_all2 P xs ys" by auto
  from Cons.prems[of x] obtain y where "f x = Inr y" "P x y" by auto
  with ys show ?case by simp
qed

lemma all2_keys:
  "list_all2 (\<lambda>(k, a) (k', b). k' = k \<and> Q k a b) xs ys \<Longrightarrow> map fst ys = map fst xs"
  by (induction xs ys rule: list_all2_induct) auto

lemma all2_map_of:
  "list_all2 (\<lambda>(k, a) (k', b). k' = k \<and> Q k a b) xs ys \<Longrightarrow> distinct (map fst xs) \<Longrightarrow>
   (k, a) \<in> set xs \<Longrightarrow> \<exists>b. map_of ys k = Some b \<and> Q k a b"
proof (induction xs ys rule: list_all2_induct)
  case Nil
  then show ?case by simp
next
  case (Cons x xs y ys)
  show ?case
  proof (cases "(k, a) = x")
    case True
    with Cons.hyps(1) show ?thesis by (cases y) auto
  next
    case False
    with Cons.prems have in_xs: "(k, a) \<in> set xs" and d: "distinct (map fst xs)" by auto
    from Cons.prems in_xs have "fst x \<noteq> k" by (cases x) force
    moreover from Cons.hyps(1) have "fst y = fst x" by (cases x; cases y) simp
    ultimately show ?thesis using Cons.IH[OF d in_xs] by (cases y) auto
  qed
qed

lemma json_field_int:
  assumes "cell k r = Some v" "null_or_finite v"
  shows "\<exists>j. json_field L r k IntOrZero = Inr j \<and> (is_null v \<longrightarrow> j = JInt 0) \<and> (\<forall>i. v = PInt i \<longrightarrow> j = JInt i)"
  using assms
  by (cases v)
     (simp_all add: json_field_def row_get_def and_then_def is_null_def null_or_finite_def py_int_def)

lemma json_field_str:
  assumes "cell k r = Some v" "\<not> is_list v"
  shows "\<exists>j. json_field L r k StrOrEmpty = Inr j \<and> (is_null v \<longrightarrow> j = JString '''') \<and> (\<forall>s. v = PStr s \<longrightarrow> j = JString s)"
  using assms
  by (cases v)
     (simp_all add: json_field_def row_get_def and_then_def is_null_def is_list_def py_str_def)

lemma json_field_release:
  assumes "cell k r = Some v" "\<not> is_list v"
  shows "\<exists>j. json_field L r k ReleaseOrEmpty = Inr j \<and> (is_null v \<longrightarrow> j = JString '''')"
  using assms
  by (cases v)
     (simp_all add: json_field_def row_get_def and_then_def is_null_def is_list_def)

lemma json_field_plain:
  assumes "cell k r = Some v"
  shows "json_field L r k ListOrEmpty = Inr (JArray (case v of PList xs \<Rightarrow> xs | _ \<Rightarrow> []))"
    "json_field L r k StrPlain = Inr (JString (py_str L v))"
  using assms
  by (simp_all add: json_field_def row_get_def and_then_def)

lemma json_field_ok:
  assumes "cell k r = Some v"
    and "case kind of IntOrZero \<Rightarrow> null_or_finite v | StrOrEmpty \<Rightarrow> \<not> is_list v
         | ReleaseOrEmpty \<Rightarrow> \<not> is_list v | _ \<Rightarrow> True"
  shows "\<exists>j. json_field L r k kind = Inr j \<and>
     (kind = IntOrZero \<and> is_null v \<longrightarrow> j = JInt 0) \<and>
     (kind = IntOrZero \<longrightarrow> (\<forall>i. v = PInt i \<longrightarrow> j = JInt i)) \<and>
     ((kind = StrOrEmpty \<or> kind = ReleaseOrEmpty) \<and> is_null v \<longrightarrow> j = JString '''') \<and>
     (kind = StrOrEmpty \<longrightarrow> (\<forall>s. v = PStr s \<longrightarrow> j = JString s)) \<and>
     (kind = ListOrEmpty \<longrightarrow> j = JArray (case v of PList xs \<Rightarrow> xs | _ \<Rightarrow> [])) \<and>
     (kind = StrPlain \<longrightarrow> j = JString (py_str L v))"
proof (cases kind)
  case StrOrEmpty
  with assms json_field_str[of k r v L] show ?thesis by auto
next
  case StrPlain
  with assms json_field_plain(2)[of k r v L] show ?thesis by auto
next
  case IntOrZero
  with assms json_field_int[of k r v L] show ?thesis by auto
next
  case ListOrEmpty
  with assms json_field_plain(1)[of k r v L] show ?thesis by auto
next
  case ReleaseOrEmpty
  with assms json_field_release[of k r v L] show ?thesis by auto
qed

text \<open>
  C10, as the code has it. For a row that has the thirteen columns, with a null or a
  finite number in the numeric ones and no list in the text ones, the record is built; its
  fields are the thirteen of the list, in that order; a numeric field whose value is null
  is 0 and an integer is itself; the fields \<open>dates\<close>, \<open>first_release\<close>, \<open>last_release\<close> and
  \<open>playlists_found\<close> are the empty text when the value is null; \<open>genres\<close> and
  \<open>feat_track_ids\<close> are the list when the value is a list and the empty list otherwise.
\<close>

theorem json_record_defaults:
  assumes "exportable r"
  shows "\<exists>out. json_record L r = Inr out \<and>
     map fst out = [''dates'', ''ids'', ''names'', ''monthly_listeners'', ''popularity'',
        ''followers'', ''genres'', ''first_release'', ''last_release'', ''num_releases'',
        ''num_tracks'', ''playlists_found'', ''feat_track_ids''] \<and>
     (\<forall>k v. k \<in> set numeric_columns \<and> cell k r = Some v \<and> is_null v \<longrightarrow>
        map_of out k = Some (JInt 0)) \<and>
     (\<forall>k i. k \<in> set numeric_columns \<and> cell k r = Some (PInt i) \<longrightarrow>
        map_of out k = Some (JInt i)) \<and>
     (\<forall>k v. k \<in> set [''dates'', ''first_release'', ''last_release'', ''playlists_found''] \<and>
        cell k r = Some v \<and> is_null v \<longrightarrow> map_of out k = Some (JString '''')) \<and>
     (\<forall>k v. k \<in> set [''genres'', ''feat_track_ids''] \<and> cell k r = Some v \<longrightarrow>
        map_of out k = Some (JArray (case v of PList xs \<Rightarrow> xs | _ \<Rightarrow> [])))"
proof -
  define Q where "Q = (\<lambda>k kind j. \<forall>v. cell k r = Some v \<longrightarrow>
     (kind = IntOrZero \<and> is_null v \<longrightarrow> j = JInt 0) \<and>
     (kind = IntOrZero \<longrightarrow> (\<forall>i. v = PInt i \<longrightarrow> j = JInt i)) \<and>
     ((kind = StrOrEmpty \<or> kind = ReleaseOrEmpty) \<and> is_null v \<longrightarrow> j = JString '''') \<and>
     (kind = ListOrEmpty \<longrightarrow> j = JArray (case v of PList xs \<Rightarrow> xs | _ \<Rightarrow> [])) \<and>
     (kind = StrPlain \<longrightarrow> j = JString (py_str L v)))"
  have step: "\<exists>y. (case x of (k, kind) \<Rightarrow> and_then (json_field L r k kind) (\<lambda>j. Inr (k, j))) = Inr y \<and>
        (case x of (k, kind) \<Rightarrow> \<lambda>(k', j). k' = k \<and> Q k kind j) y"
    if "x \<in> set json_fields" for x
  proof -
    obtain k kind where x: "x = (k, kind)" by (cases x)
    from assms that x obtain v where v: "cell k r = Some v"
      "case kind of IntOrZero \<Rightarrow> null_or_finite v | StrOrEmpty \<Rightarrow> \<not> is_list v
         | ReleaseOrEmpty \<Rightarrow> \<not> is_list v | _ \<Rightarrow> True"
      by (auto simp: exportable_def list_all_iff split: option.splits)
    from json_field_ok[OF v, of L] obtain j where "json_field L r k kind = Inr j" "Q k kind j"
      using v(1) unfolding Q_def by auto
    then show ?thesis by (simp add: x and_then_def)
  qed
  from map_err_all2[of json_fields _ "\<lambda>(k, kind) (k', j). k' = k \<and> Q k kind j", OF step]
  obtain out where out: "json_record L r = Inr out"
    "list_all2 (\<lambda>(k, kind) (k', j). k' = k \<and> Q k kind j) json_fields out"
    unfolding json_record_def by blast
  have d: "distinct (map fst json_fields)" by (simp add: json_fields_def)
  have keys: "map fst out = map fst json_fields" using out(2) by (rule all2_keys)
  have look: "\<exists>j. map_of out k = Some j \<and> Q k kind j" if "(k, kind) \<in> set json_fields" for k kind
    using all2_map_of[OF out(2) d that] .
  have num: "(k, IntOrZero) \<in> set json_fields" if "k \<in> set numeric_columns" for k
    using that by (auto simp: numeric_columns_def json_fields_def)
  have tf: "(k, StrOrEmpty) \<in> set json_fields \<or> (k, ReleaseOrEmpty) \<in> set json_fields"
    if "k \<in> set [''dates'', ''first_release'', ''last_release'', ''playlists_found'']" for k
    using that by (auto simp: json_fields_def)
  have arr: "(k, ListOrEmpty) \<in> set json_fields" if "k \<in> set [''genres'', ''feat_track_ids'']" for k
    using that by (auto simp: json_fields_def)
  have pln: "(k, StrPlain) \<in> set json_fields" if "k \<in> set [''ids'', ''names'']" for k
    using that by (auto simp: json_fields_def)
  have 1: "\<forall>k v. k \<in> set numeric_columns \<and> cell k r = Some v \<and> is_null v \<longrightarrow>
        map_of out k = Some (JInt 0)"
  proof (intro allI impI)
    fix k v
    assume a: "k \<in> set numeric_columns \<and> cell k r = Some v \<and> is_null v"
    then have "(k, IntOrZero) \<in> set json_fields" using num by simp
    from look[OF this] obtain j where "map_of out k = Some j" "Q k IntOrZero j" by auto
    with a show "map_of out k = Some (JInt 0)" by (simp add: Q_def)
  qed
  have 2: "\<forall>k i. k \<in> set numeric_columns \<and> cell k r = Some (PInt i) \<longrightarrow>
        map_of out k = Some (JInt i)"
  proof (intro allI impI)
    fix k i
    assume a: "k \<in> set numeric_columns \<and> cell k r = Some (PInt i)"
    then have "(k, IntOrZero) \<in> set json_fields" using num by simp
    from look[OF this] obtain j where "map_of out k = Some j" "Q k IntOrZero j" by auto
    with a show "map_of out k = Some (JInt i)" by (simp add: Q_def)
  qed
  have 3: "\<forall>k v. k \<in> set [''dates'', ''first_release'', ''last_release'', ''playlists_found''] \<and>
        cell k r = Some v \<and> is_null v \<longrightarrow> map_of out k = Some (JString '''')"
  proof (intro allI impI)
    fix k v
    assume a: "k \<in> set [''dates'', ''first_release'', ''last_release'', ''playlists_found''] \<and>
        cell k r = Some v \<and> is_null v"
    then have "k \<in> set [''dates'', ''first_release'', ''last_release'', ''playlists_found'']"
      by (rule conjunct1)
    from tf[OF this] consider "(k, StrOrEmpty) \<in> set json_fields"
      | "(k, ReleaseOrEmpty) \<in> set json_fields" by (rule disjE)
    then show "map_of out k = Some (JString '''')"
    proof cases
      case 1
      from look[OF 1] obtain j where "map_of out k = Some j" "Q k StrOrEmpty j" by auto
      with a show ?thesis by (simp add: Q_def)
    next
      case 2
      from look[OF 2] obtain j where "map_of out k = Some j" "Q k ReleaseOrEmpty j" by auto
      with a show ?thesis by (simp add: Q_def)
    qed
  qed
  have 4: "\<forall>k v. k \<in> set [''genres'', ''feat_track_ids''] \<and> cell k r = Some v \<longrightarrow>
        map_of out k = Some (JArray (case v of PList xs \<Rightarrow> xs | _ \<Rightarrow> []))"
  proof (intro allI impI)
    fix k v
    assume a: "k \<in> set [''genres'', ''feat_track_ids''] \<and> cell k r = Some v"
    then have "k \<in> set [''genres'', ''feat_track_ids'']" by (rule conjunct1)
    from look[OF arr[OF this]] obtain j where "map_of out k = Some j" "Q k ListOrEmpty j" by auto
    with a show "map_of out k = Some (JArray (case v of PList xs \<Rightarrow> xs | _ \<Rightarrow> []))"
      by (simp add: Q_def)
  qed
  have 0: "map fst out = [''dates'', ''ids'', ''names'', ''monthly_listeners'', ''popularity'',
        ''followers'', ''genres'', ''first_release'', ''last_release'', ''num_releases'',
        ''num_tracks'', ''playlists_found'', ''feat_track_ids'']"
    using keys by (simp add: json_fields_def)
  from out(1) 0 1 2 3 4 show ?thesis by (intro exI[of _ out] conjI) assumption+
qed

theorem json_record_defaults_witness:
  "exportable nameless_row \<and>
   json_record lib_digits nameless_row =
     Inr [(''dates'', JString ''''), (''ids'', JString ''a9''), (''names'', JString ''nan''),
          (''monthly_listeners'', JInt 0), (''popularity'', JInt 5), (''followers'', JInt 42),
          (''genres'', JArray [''pop'']), (''first_release'', JString ''''),
          (''last_release'', JString ''2020''), (''num_releases'', JInt 2),
          (''num_tracks'', JInt 20), (''playlists_found'', JString ''''),
          (''feat_track_ids'', JArray [])] \<and>
   (\<exists>out. json_record lib_digits nameless_row = Inr out \<and>
      map_of out ''playlists_found'' = Some (JString '''') \<and>
      map_of out ''popularity'' = Some (JInt 5))"
proof -
  have e: "exportable nameless_row" by code_simp
  have j: "json_record lib_digits nameless_row =
     Inr [(''dates'', JString ''''), (''ids'', JString ''a9''), (''names'', JString ''nan''),
          (''monthly_listeners'', JInt 0), (''popularity'', JInt 5), (''followers'', JInt 42),
          (''genres'', JArray [''pop'']), (''first_release'', JString ''''),
          (''last_release'', JString ''2020''), (''num_releases'', JInt 2),
          (''num_tracks'', JInt 20), (''playlists_found'', JString ''''),
          (''feat_track_ids'', JArray [])]"
    by code_simp
  have c1: "cell ''playlists_found'' nameless_row = Some PNaN" by code_simp
  have c2: "cell ''popularity'' nameless_row = Some (PInt 5)" by code_simp
  from json_record_defaults[OF e, of lib_digits] obtain out where
    o: "json_record lib_digits nameless_row = Inr out"
    and a: "\<forall>k v. k \<in> set [''dates'', ''first_release'', ''last_release'', ''playlists_found''] \<and>
        cell k nameless_row = Some v \<and> is_null v \<longrightarrow> map_of out k = Some (JString '''')"
    and b: "\<forall>k i. k \<in> set numeric_columns \<and> cell k nameless_row = Some (PInt i) \<longrightarrow>
        map_of out k = Some (JInt i)"
    by blast
  from a c1 have "map_of out ''playlists_found'' = Some (JString '''')"
    by (simp add: is_null_def)
  moreover from b c2 have "map_of out ''popularity'' = Some (JInt 5)"
    by (simp add: numeric_columns_def)
  ultimately show ?thesis using e j o by blast
qed

text \<open>The claim C10 as stated fails on a missing name: \<open>names\<close> is a text field, its value is
  null, and the record carries the text \<open>nan\<close>, not the empty text.\<close>

theorem json_record_counterexample:
  "and_then (json_record lib_digits nameless_row) (\<lambda>out. Inr (map_of out ''names''))
     = Inr (Some (JString ''nan'')) \<and>
   cell ''names'' nameless_row = Some PNaN"
  by code_simp

section \<open>Column assignments on well-formed frames\<close>

lemma set_cell_fst: "map fst (set_cell c v r) = map fst r"
  by (induction r) (auto simp: set_cell_def)

lemma cell_set_cell_other: "c' \<noteq> c \<Longrightarrow> cell c' (set_cell c v r) = cell c' r"
  by (induction r) (auto simp: set_cell_def cell_def)

lemma cell_set_cell_same: "c \<in> set (map fst r) \<Longrightarrow> cell c (set_cell c v r) = Some v"
  by (induction r) (auto simp: set_cell_def cell_def)



lemma rows_set_column:
  "length vs = length (rows df) \<Longrightarrow>
   rows (set_column c vs df) = map (\<lambda>(r, v). set_cell c v r) (zip (rows df) vs) \<and>
   length (rows (set_column c vs df)) = length (rows df) \<and>
   map (map fst) (rows (set_column c vs df)) = map (map fst) (rows df)"
proof -
  assume len: "length vs = length (rows df)"
  have "map (map fst) (map (\<lambda>(r, v). set_cell c v r) (zip (rows df) vs)) = map (map fst) (rows df)"
    using len
  proof (induction "rows df" vs arbitrary: df rule: list_induct2')
    case (4 x xs y ys)
    from 4(2) have "rows df = x # xs" by simp
    moreover have "map (map fst) (map (\<lambda>(r, v). set_cell c v r) (zip xs ys)) = map (map fst) xs"
      using 4(1)[of "df\<lparr>rows := xs\<rparr>"] 4(3) 4(2)[symmetric] by simp
    ultimately show ?case using 4(2)[symmetric] by (simp add: set_cell_fst)
  qed auto
  then show ?thesis using len by (simp add: set_column_def del: map_map)
qed

lemma get_column_set_column_other:
  "length vs = length (rows df) \<Longrightarrow> c' \<noteq> c \<Longrightarrow>
   get_column c' (set_column c vs df) = get_column c' df"
proof -
  assume len: "length vs = length (rows df)" and ne: "c' \<noteq> c"
  have "map (\<lambda>r. case cell c' r of Some v \<Rightarrow> v | None \<Rightarrow> PNaN)
          (map (\<lambda>(r, v). set_cell c v r) (zip rs vs)) =
        map (\<lambda>r. case cell c' r of Some v \<Rightarrow> v | None \<Rightarrow> PNaN) rs"
    if "length vs = length rs" for rs
    using that by (induction rs vs rule: list_induct2') (auto simp: cell_set_cell_other[OF ne])
  from this[OF len] show ?thesis by (simp add: get_column_def set_column_def)
qed

lemma get_column_set_column_same:
  "length vs = length (rows df) \<Longrightarrow> list_all (\<lambda>r. c \<in> set (map fst r)) (rows df) \<Longrightarrow>
   get_column c (set_column c vs df) = vs"
proof -
  assume len: "length vs = length (rows df)" and has: "list_all (\<lambda>r. c \<in> set (map fst r)) (rows df)"
  have "map (\<lambda>r. case cell c r of Some v \<Rightarrow> v | None \<Rightarrow> PNaN)
          (map (\<lambda>(r, v). set_cell c v r) (zip rs vs)) = vs"
    if "length vs = length rs" "list_all (\<lambda>r. c \<in> set (map fst r)) rs" for rs
    using that by (induction rs vs rule: list_induct2') (auto simp: cell_set_cell_same)
  from this[OF len has] show ?thesis by (simp add: get_column_def set_column_def)
qed


lemma apply_series_frame:
  assumes "apply_series c f df = Inr df'"
    and "\<And>vs ws. f vs = Inr ws \<Longrightarrow> length ws = length vs"
  shows "columns df' = columns df \<and> map (map fst) (rows df') = map (map fst) (rows df) \<and>
         (\<forall>c'. c' \<noteq> c \<longrightarrow> get_column c' df' = get_column c' df) \<and>
         (wf_frame df \<longrightarrow> wf_frame df') \<and>
         (wf_frame df \<longrightarrow> c \<in> set (columns df) \<longrightarrow> f (get_column c df) = Inr (get_column c df'))"
proof (cases "c \<in> set (columns df)")
  case False
  with assms(1) have "df' = df" by (simp add: apply_series_def)
  with False show ?thesis by simp
next
  case True
  with assms(1) obtain ws where ws: "f (get_column c df) = Inr ws" and df': "df' = set_column c ws df"
    by (auto simp: apply_series_def and_then_def split: sum.splits)
  from assms(2)[OF ws] have len: "length ws = length (rows df)" by (simp add: get_column_def)
  note r = rows_set_column[OF len, of c]
  have cols: "columns df' = columns df" by (simp add: df' set_column_def)
  have keys: "map (map fst) (rows df') = map (map fst) (rows df)" unfolding df' using r by blast
  have other: "\<forall>c'. c' \<noteq> c \<longrightarrow> get_column c' df' = get_column c' df"
    using get_column_set_column_other[OF len] by (simp add: df')
  have wf: "wf_frame df'" if "wf_frame df"
  proof -
    from that have "\<forall>ks\<in>set (map (map fst) (rows df)). ks = columns df"
      by (auto simp: wf_frame_def list_all_iff)
    with keys cols have "\<forall>ks\<in>set (map (map fst) (rows df')). ks = columns df'" by simp
    with that cols show ?thesis by (auto simp: wf_frame_def list_all_iff)
  qed
  have same: "f (get_column c df) = Inr (get_column c df')" if "wf_frame df"
  proof -
    from that True have "list_all (\<lambda>r. c \<in> set (map fst r)) (rows df)"
      unfolding wf_frame_def list_all_iff by metis
    from get_column_set_column_same[OF len this] ws show ?thesis by (simp add: df')
  qed
  from cols keys other wf same show ?thesis by blast
qed


lemma fold_steps_frame:
  assumes "fold_err (\<lambda>(c, f). apply_series c f) steps df = Inr df'"
    and "\<And>c f vs ws. (c, f) \<in> set steps \<Longrightarrow> f vs = Inr ws \<Longrightarrow> length ws = length vs"
  shows "columns df' = columns df \<and> map (map fst) (rows df') = map (map fst) (rows df) \<and>
         (\<forall>c'. c' \<notin> fst ` set steps \<longrightarrow> get_column c' df' = get_column c' df) \<and>
         (wf_frame df \<longrightarrow> wf_frame df')"
  using assms
proof (induction steps arbitrary: df)
  case Nil
  then show ?case by simp
next
  case (Cons st steps)
  obtain c f where st: "st = (c, f)" by (cases st)
  from Cons.prems(1) st obtain df1 where 1: "apply_series c f df = Inr df1"
    and 2: "fold_err (\<lambda>(c, f). apply_series c f) steps df1 = Inr df'"
    by (auto split: sum.splits)
  have lp: "\<And>vs ws. f vs = Inr ws \<Longrightarrow> length ws = length vs"
    using Cons.prems(2)[of c f] st by simp
  note a = apply_series_frame[OF 1 lp]
  have lps: "length ws = length vs" if "(c, f) \<in> set steps" "f vs = Inr ws" for c f vs ws
    using Cons.prems(2)[of c f vs ws] that by simp
  have "columns df' = columns df1 \<and> map (map fst) (rows df') = map (map fst) (rows df1) \<and>
         (\<forall>c'. c' \<notin> fst ` set steps \<longrightarrow> get_column c' df' = get_column c' df1) \<and>
         (wf_frame df1 \<longrightarrow> wf_frame df')"
    using Cons.IH[OF 2 lps] by simp
  with a st show ?case by auto
qed



lemma fold_err_append:
  "fold_err g (xs @ ys) s = and_then (fold_err g xs s) (fold_err g ys)"
  by (induction xs arbitrary: s) (auto simp: and_then_def split: sum.splits)

lemma fold_err_append_fun:
  "fold_err g (xs @ ys) = (\<lambda>s. and_then (fold_err g xs s) (fold_err g ys))"
  by (rule ext) (rule fold_err_append)

lemma fold_err_map: "fold_err g (map h xs) s = fold_err (\<lambda>x. g (h x)) xs s"
  by (induction xs arbitrary: s) (auto split: sum.splits)

lemma transform_data_steps:
  "transform_data L df = fold_err (\<lambda>(c, f). apply_series c f) (transform_steps L) df"
proof -
  let ?g = "\<lambda>(c, f). apply_series c f"
  let ?arr = "map_err (\<lambda>v. and_then (parse_array v) (\<lambda>xs. Inr (PList xs)))"
  let ?rel = "\<lambda>vs. Inr (map (release_cell L) vs)"
  have two: "fold_err ?g [(c, f), (c', f')] s = and_then (apply_series c f s) (apply_series c' f')"
    for c f c' f' s
    by (simp add: and_then_def split: sum.splits)
  have m: "fold_err ?g (map (\<lambda>col. (col, F)) cols) s = fold_err (\<lambda>col. apply_series col F) cols s"
    for F cols s
    by (simp add: fold_err_map)
  have "fold_err ?g (transform_steps L) df =
      and_then (fold_err ?g [(''dates'', map_err (parse_date L)), (''names'', str_upper)] df) (\<lambda>s2.
      and_then (fold_err ?g (map (\<lambda>col. (col, numeric_series L)) numeric_columns) s2) (\<lambda>s3.
      and_then (fold_err ?g (map (\<lambda>col. (col, ?arr)) [''genres'', ''feat_track_ids'']) s3) (\<lambda>s4.
      fold_err ?g (map (\<lambda>col. (col, ?rel)) [''first_release'', ''last_release'']) s4)))"
    unfolding transform_steps_def
    by (simp only: fold_err_append_fun)
  also have "\<dots> =
      and_then (and_then (apply_series ''dates'' (map_err (parse_date L)) df)
                  (apply_series ''names'' str_upper)) (\<lambda>s2.
      and_then (fold_err (\<lambda>col. apply_series col (numeric_series L)) numeric_columns s2) (\<lambda>s3.
      and_then (fold_err (\<lambda>col. apply_series col ?arr) [''genres'', ''feat_track_ids''] s3) (\<lambda>s4.
      fold_err (\<lambda>col. apply_series col ?rel) [''first_release'', ''last_release''] s4)))"
    by (simp only: two m)
  also have "\<dots> = transform_data L df"
    unfolding transform_data_def by (simp add: and_then_def split: sum.splits)
  finally show ?thesis by simp
qed

lemma transform_steps_length:
  "(c, f) \<in> set (transform_steps L) \<Longrightarrow> f vs = Inr ws \<Longrightarrow> length ws = length vs"
  by (auto simp: transform_steps_def numeric_series_def str_upper_def
      dest: map_err_length split: if_splits)


lemma transform_data_frame:
  assumes "transform_data L df = Inr df'"
  shows "columns df' = columns df \<and> map (map fst) (rows df') = map (map fst) (rows df) \<and>
         (wf_frame df \<longrightarrow> wf_frame df')"
proof -
  from assms have "fold_err (\<lambda>(c, f). apply_series c f) (transform_steps L) df = Inr df'"
    by (simp add: transform_data_steps)
  moreover have "length ws = length vs" if "(c, f) \<in> set (transform_steps L)" "f vs = Inr ws"
    for c f vs ws
    using that by (rule transform_steps_length)
  ultimately show ?thesis
    using fold_steps_frame[of "transform_steps L" df df'] by blast
qed

section \<open>Properties of the run\<close>

lemma json_record_keys:
  assumes "json_record L r = Inr rec"
  shows "map fst rec = map fst json_fields"
proof -
  from assms have "list_all2 (\<lambda>x y. (case x of (k, kind) \<Rightarrow>
      and_then (json_field L r k kind) (\<lambda>j. Inr (k, j))) = Inr y) json_fields rec"
    by (simp add: json_record_def map_err_Inr_iff)
  then have "list_all2 (\<lambda>x y. fst y = fst x) json_fields rec"
    by (rule list_all2_mono) (auto simp: and_then_def split: sum.splits)
  moreover have "map fst ys = map fst xs" if "list_all2 (\<lambda>x y. fst y = fst x) xs ys"
    for xs :: "(string \<times> field_kind) list" and ys :: "(string \<times> json_value) list"
    using that by (induction xs ys rule: list_all2_induct) auto
  ultimately show ?thesis by blast
qed

lemma map_err_list_all:
  "map_err f xs = Inr ys \<Longrightarrow> (\<And>x y. f x = Inr y \<Longrightarrow> P y) \<Longrightarrow> list_all P ys"
  by (induction xs arbitrary: ys) (auto split: sum.splits)

lemma insert_statement_columns:
  "stmt_columns (insert_statement t True r) = map fst r @ [''reject_reason''] \<and>
   last (stmt_values (insert_statement t True r)) = PStr ''Duplicate ID'' \<and>
   stmt_columns (insert_statement t False r) = map fst r \<and>
   table_name (insert_statement t b r) = t"
  by (simp add: insert_statement_def)

text \<open>
  C9. Whenever a run completes, the frame written as the reject CSV file is the duplicate
  frame that \<^verbatim>\<open>clean_data\<close> returned (none is written when there is no duplicate): the
  columns of the input and rows of the input, unchanged; the statements for the table
  \<open>data_reject\<close> are built from the transformed duplicate rows, one per duplicate row, each
  with the columns of the row followed by \<open>reject_reason\<close> and with \<open>Duplicate ID\<close> as last
  value; the statements for the table \<open>data\<close> carry the columns of the clean rows and
  nothing more, and every JSON record has the thirteen fields only.
\<close>

theorem run_reject_reason:
  assumes "run E L df = Inr out"
  shows "\<exists>clean dup cleanT dupT.
      clean_data df = Inr (clean, dup) \<and>
      transform_data L clean = Inr cleanT \<and> transform_data L dup = Inr dupT \<and>
      csv_export out = (if rows dup = [] then None else Some dup) \<and>
      columns dup = columns df \<and> subseq (rows dup) (rows df) \<and>
      data_reject_sink out = map (insert_statement ''data_reject'' True) (rows dupT) \<and>
      map stmt_columns (data_reject_sink out) = map (\<lambda>r. map fst r @ [''reject_reason'']) (rows dup) \<and>
      list_all (\<lambda>st. last (stmt_values st) = PStr ''Duplicate ID'') (data_reject_sink out) \<and>
      data_sink out = map (insert_statement ''data'' False) (rows cleanT) \<and>
      map stmt_columns (data_sink out) = map (map fst) (rows clean) \<and>
      list_all (\<lambda>rec. map fst rec = map fst json_fields) (data (json_export out))"
proof -
  from assms obtain clean dup where cd: "clean_data df = Inr (clean, dup)"
    by (cases "clean_data df") (auto simp: run_def and_then_def)
  from assms cd obtain cleanT where ct: "transform_data L clean = Inr cleanT"
    by (cases "transform_data L clean") (auto simp: run_def and_then_def)
  from assms cd ct obtain dupT where dt: "transform_data L dup = Inr dupT"
    by (cases "transform_data L dup") (auto simp: run_def and_then_def)
  let ?i1 = "if \<not> df_empty cleanT then insert_to_database E cleanT ''data'' False else Inr []"
  let ?i2 = "if \<not> df_empty dupT then insert_to_database E dupT ''data_reject'' True else Inr []"
  let ?cs = "if \<not> df_empty dup then and_then (save_to_csv E dup) (\<lambda>f. Inr (Some f)) else Inr None"
  from assms cd ct dt obtain s1 where s1: "?i1 = Inr s1"
    by (cases ?i1) (auto simp: run_def and_then_def)
  from assms cd ct dt s1 obtain s2 where s2: "?i2 = Inr s2"
    by (cases ?i2) (auto simp: run_def and_then_def)
  from assms cd ct dt s1 s2 obtain csv where csv: "?cs = Inr csv"
    by (cases ?cs) (auto simp: run_def and_then_def)
  from assms cd ct dt s1 s2 csv obtain js where js: "save_to_json E L cleanT = Inr js"
    by (cases "save_to_json E L cleanT") (auto simp: run_def and_then_def)
  from assms cd ct dt s1 s2 csv js
  have out: "out = \<lparr>data_sink = s1, data_reject_sink = s2, csv_export = csv, json_export = js\<rparr>"
    by (simp add: run_def and_then_def)
  note part = clean_data_frames[OF cd]
  from cd have ids: "''ids'' \<in> set (columns df)"
    by (auto simp: clean_data_def duplicated_def split: if_splits)
  with part have ne: "columns dup \<noteq> []" "columns clean \<noteq> []" by auto
  note fd = transform_data_frame[OF dt]
  note fc = transform_data_frame[OF ct]
  from fd have lend: "length (rows dupT) = length (rows dup)" by (metis length_map)
  from fc have lenc: "length (rows cleanT) = length (rows clean)" by (metis length_map)
  have e_dup: "df_empty dup \<longleftrightarrow> rows dup = []" using ne by (simp add: df_empty_def)
  have e_dupT: "df_empty dupT \<longleftrightarrow> rows dup = []" using ne fd lend by (auto simp: df_empty_def)
  have e_cleanT: "df_empty cleanT \<longleftrightarrow> rows cleanT = []" using ne fc by (simp add: df_empty_def)
  have c1: "csv = (if rows dup = [] then None else Some dup)"
    using csv e_dup by (auto simp: save_to_csv_def and_then_def split: if_splits)
  have r2: "s2 = map (insert_statement ''data_reject'' True) (rows dupT)"
    using s2 e_dupT lend by (auto simp: insert_to_database_def split: if_splits)
  have r1: "s1 = map (insert_statement ''data'' False) (rows cleanT)"
    using s1 e_cleanT by (auto simp: insert_to_database_def split: if_splits)
  have k2: "map stmt_columns s2 = map (\<lambda>r. map fst r @ [''reject_reason'']) (rows dup)"
  proof -
    have "map stmt_columns s2 = map (\<lambda>ks. ks @ [''reject_reason'']) (map (map fst) (rows dupT))"
      by (simp add: r2 insert_statement_columns comp_def)
    also have "\<dots> = map (\<lambda>ks. ks @ [''reject_reason'']) (map (map fst) (rows dup))"
      using fd by simp
    finally show ?thesis by (simp add: comp_def)
  qed
  have k1: "map stmt_columns s1 = map (map fst) (rows clean)"
  proof -
    have "map stmt_columns s1 = map (map fst) (rows cleanT)"
      by (simp add: r1 insert_statement_columns comp_def)
    with fc show ?thesis by simp
  qed
  have l2: "list_all (\<lambda>st. last (stmt_values st) = PStr ''Duplicate ID'') s2"
    by (simp add: r2 list_all_iff insert_statement_columns)
  have j: "list_all (\<lambda>rec. map fst rec = map fst json_fields) (data js)"
  proof -
    from js obtain data_list where d: "map_err (json_record L) (rows cleanT) = Inr data_list"
      and "js = \<lparr>row_count = length (rows cleanT), data = data_list\<rparr>"
      by (auto simp: save_to_json_def and_then_def split: if_splits sum.splits)
    moreover from d have "list_all (\<lambda>rec. map fst rec = map fst json_fields) data_list"
      by (rule map_err_list_all) (rule json_record_keys)
    ultimately show ?thesis by simp
  qed
  from part have "columns dup = columns df" "subseq (rows dup) (rows df)" by auto
  with cd ct dt c1 r2 k2 l2 r1 k1 j show ?thesis
    by (intro exI[of _ clean] exI[of _ dup] exI[of _ cleanT] exI[of _ dupT]) (simp add: out)
qed

theorem run_reject_reason_witness:
  "\<exists>out. run env_ok lib_digits raw4 = Inr out \<and>
     csv_export out = Some \<lparr>columns = map fst json_fields,
        rows = [raw_row ''a1'' '' not-a-date '' ''cher'' ''7'' '''']\<rparr> \<and>
     map stmt_columns (data_reject_sink out) = [map fst json_fields @ [''reject_reason'']] \<and>
     list_all (\<lambda>st. last (stmt_values st) = PStr ''Duplicate ID'') (data_reject_sink out) \<and>
     map stmt_columns (data_sink out) = [map fst json_fields, map fst json_fields, map fst json_fields]"
proof -
  have "case run env_ok lib_digits raw4 of Inr out \<Rightarrow> True | Inl e \<Rightarrow> False" by code_simp
  then obtain out where run: "run env_ok lib_digits raw4 = Inr out"
    by (cases "run env_ok lib_digits raw4") auto
  have cd: "clean_data raw4 =
     Inr (\<lparr>columns = map fst json_fields,
           rows = [raw_row ''a1'' ''13/04/2024'' ''abba'' ''42'' ''[pop]'',
                   raw_row ''a2'' ''2024-04-13'' ''blur'' ''abc'' ''[rock, 'indie']'',
                   raw_row ''a3'' ''20240413'' ''devo'' ''0'' ''pop'']\<rparr>,
          \<lparr>columns = map fst json_fields,
           rows = [raw_row ''a1'' '' not-a-date '' ''cher'' ''7'' '''']\<rparr>)"
    by (simp add: clean_data_def duplicated_def raw4_def raw_row_def boolean_index_def cell_def
        json_fields_def)
  have keys: "map fst (raw_row i d n f g) = map fst json_fields" for i d n f g
    by (simp add: raw_row_def json_fields_def)
  from run_reject_reason[OF run] obtain clean dup cleanT dupT where
      a: "clean_data raw4 = Inr (clean, dup)" and
      b: "csv_export out = (if rows dup = [] then None else Some dup)" and
      c: "map stmt_columns (data_reject_sink out) =
            map (\<lambda>r. map fst r @ [''reject_reason'']) (rows dup)" and
      d: "list_all (\<lambda>st. last (stmt_values st) = PStr ''Duplicate ID'') (data_reject_sink out)" and
      e: "map stmt_columns (data_sink out) = map (map fst) (rows clean)"
    by blast
  from a cd have cl: "clean = \<lparr>columns = map fst json_fields,
           rows = [raw_row ''a1'' ''13/04/2024'' ''abba'' ''42'' ''[pop]'',
                   raw_row ''a2'' ''2024-04-13'' ''blur'' ''abc'' ''[rock, 'indie']'',
                   raw_row ''a3'' ''20240413'' ''devo'' ''0'' ''pop'']\<rparr>"
    and du: "dup = \<lparr>columns = map fst json_fields,
           rows = [raw_row ''a1'' '' not-a-date '' ''cher'' ''7'' '''']\<rparr>"
    by simp_all
  have 1: "csv_export out = Some \<lparr>columns = map fst json_fields,
        rows = [raw_row ''a1'' '' not-a-date '' ''cher'' ''7'' '''']\<rparr>"
    using b by (simp add: du)
  have 2: "map stmt_columns (data_reject_sink out) = [map fst json_fields @ [''reject_reason'']]"
    using c by (simp add: du keys)
  have 3: "map stmt_columns (data_sink out) =
      [map fst json_fields, map fst json_fields, map fst json_fields]"
    using e by (simp add: cl keys)
  from run 1 2 d 3 show ?thesis by (intro exI[of _ out] conjI)
qed

section \<open>Dates that are already year-month-day\<close>

lemma digit_char_props: "n < 10 \<Longrightarrow> is_digit (digit_char n) \<and> digit_val (digit_char n) = n"
  by (simp add: is_digit_def digit_val_def digit_char_def)







lemma pad_digits:
  "list_all is_digit (pad2 n) \<and> list_all is_digit (pad4 n) \<and> length (pad2 n) = 2 \<and> length (pad4 n) = 4"
  by (simp add: pad2_def pad4_def digit_char_props)












section \<open>Transforming twice\<close>










end
